theory Spec2Isabelle
  imports Main "HOL-Library.Word"
begin

unbundle bit_operations_syntax

section \<open>Python values\<close>

text \<open>
  The cells of a data frame row and the values of the normalized record are Python
  scalars. The program applies three operations to them: the truth test of \<open>or\<close>,
  \<open>str\<close>, and \<open>json.dumps\<close>; it does no arithmetic on them. A float is therefore
  carried by its \<open>repr\<close> (which determines it): \<open>PFloat ''100.0''\<close>,
  \<open>PFloat ''nan''\<close> for the NaN that pandas puts in an empty CSV cell.
  \<open>PNA\<close> is \<open>pandas.NA\<close>, the missing marker of the nullable dtypes. A Python
  \<open>str\<close> is carried by its UTF-8 bytes, so that \<open>encode()\<close> is the identity on
  the characters.
\<close>

datatype pyval = PNone | PBool bool | PInt int | PFloat string | PStr string | PNA

datatype error =
    TypeError | KeyError | OverflowError | BindingError | IntegrityError
  | OtherException string

text \<open>\<open>bool(v)\<close>: \<open>bool(pandas.NA)\<close> raises TypeError; NaN is true.\<close>

fun py_bool :: "pyval \<Rightarrow> error + bool" where
  "py_bool PNone = Inr False"
| "py_bool (PBool b) = Inr b"
| "py_bool (PInt i) = Inr (i \<noteq> 0)"
| "py_bool (PFloat r) = Inr (r \<noteq> ''0.0'' \<and> r \<noteq> ''-0.0'')"
| "py_bool (PStr s) = Inr (s \<noteq> [])"
| "py_bool PNA = Inl TypeError"

text \<open>\<open>a or b\<close>: \<open>a\<close> when it is true, \<open>b\<close> otherwise.\<close>

definition py_or :: "pyval \<Rightarrow> pyval \<Rightarrow> error + pyval" where
  "py_or a b = (case py_bool a of Inl e \<Rightarrow> Inl e | Inr t \<Rightarrow> Inr (if t then a else b))"

fun str_nat :: "nat \<Rightarrow> string" where
  "str_nat n = (if n < 10 then [''0123456789'' ! n]
                else str_nat (n div 10) @ [''0123456789'' ! (n mod 10)])"

definition str_int :: "int \<Rightarrow> string" where
  "str_int i = (if i < 0 then ''-'' @ str_nat (nat (- i)) else str_nat (nat i))"

text \<open>\<open>str(v)\<close>.\<close>

fun py_str :: "pyval \<Rightarrow> string" where
  "py_str PNone = ''None''"
| "py_str (PBool b) = (if b then ''True'' else ''False'')"
| "py_str (PInt i) = str_int i"
| "py_str (PFloat r) = r"
| "py_str (PStr s) = s"
| "py_str PNA = ''<NA>''"

text \<open>\<open>sep.join(xs)\<close>.\<close>

fun py_join :: "string \<Rightarrow> string list \<Rightarrow> string" where
  "py_join sep [] = []"
| "py_join sep [x] = x"
| "py_join sep (x # y # ys) = x @ sep @ py_join sep (y # ys)"

text \<open>
  A Python dict, in insertion order. \<open>dict_get\<close> is \<open>d.get(k, default)\<close>,
  \<open>dict_set\<close> is \<open>d[k] = v\<close>.
\<close>

type_synonym 'v pydict = "(string \<times> 'v) list"

definition dict_get :: "'v pydict \<Rightarrow> string \<Rightarrow> 'v \<Rightarrow> 'v" where
  "dict_get d k dflt = (case map_of d k of None \<Rightarrow> dflt | Some v \<Rightarrow> v)"

definition dict_set :: "'v pydict \<Rightarrow> string \<Rightarrow> 'v \<Rightarrow> 'v pydict" where
  "dict_set d k v =
     (if k \<in> set (map fst d) then map (\<lambda>(k', v'). if k' = k then (k', v) else (k', v')) d
      else d @ [(k, v)])"

section \<open>MD5 (\<open>hashlib.md5(...).hexdigest()\<close>)\<close>

definition md5_K :: "32 word list" where
  "md5_K = [
     0xd76aa478, 0xe8c7b756, 0x242070db, 0xc1bdceee,
     0xf57c0faf, 0x4787c62a, 0xa8304613, 0xfd469501,
     0x698098d8, 0x8b44f7af, 0xffff5bb1, 0x895cd7be,
     0x6b901122, 0xfd987193, 0xa679438e, 0x49b40821,
     0xf61e2562, 0xc040b340, 0x265e5a51, 0xe9b6c7aa,
     0xd62f105d, 0x02441453, 0xd8a1e681, 0xe7d3fbc8,
     0x21e1cde6, 0xc33707d6, 0xf4d50d87, 0x455a14ed,
     0xa9e3e905, 0xfcefa3f8, 0x676f02d9, 0x8d2a4c8a,
     0xfffa3942, 0x8771f681, 0x6d9d6122, 0xfde5380c,
     0xa4beea44, 0x4bdecfa9, 0xf6bb4b60, 0xbebfbc70,
     0x289b7ec6, 0xeaa127fa, 0xd4ef3085, 0x04881d05,
     0xd9d4d039, 0xe6db99e5, 0x1fa27cf8, 0xc4ac5665,
     0xf4292244, 0x432aff97, 0xab9423a7, 0xfc93a039,
     0x655b59c3, 0x8f0ccc92, 0xffeff47d, 0x85845dd1,
     0x6fa87e4f, 0xfe2ce6e0, 0xa3014314, 0x4e0811a1,
     0xf7537e82, 0xbd3af235, 0x2ad7d2bb, 0xeb86d391]"

definition md5_s :: "nat list" where
  "md5_s = [7, 12, 17, 22, 7, 12, 17, 22, 7, 12, 17, 22, 7, 12, 17, 22,
            5, 9, 14, 20, 5, 9, 14, 20, 5, 9, 14, 20, 5, 9, 14, 20,
            4, 11, 16, 23, 4, 11, 16, 23, 4, 11, 16, 23, 4, 11, 16, 23,
            6, 10, 15, 21, 6, 10, 15, 21, 6, 10, 15, 21, 6, 10, 15, 21]"

text \<open>The message, the byte 0x80, zeros up to 56 modulo 64, the bit length in 64 bits.\<close>

definition md5_pad :: "8 word list \<Rightarrow> 8 word list" where
  "md5_pad bs =
     (let n = length bs;
          z = (119 - n mod 64) mod 64;
          bits = (of_nat (8 * n) :: 64 word)
      in bs @ [0x80] @ replicate z 0 @ map (\<lambda>i. ucast (drop_bit (8 * i) bits)) [0..<8])"

definition le32 :: "8 word list \<Rightarrow> 32 word" where
  "le32 bs = foldr (\<lambda>b acc. ucast b OR push_bit 8 acc) bs 0"

definition bytes_le32 :: "32 word \<Rightarrow> 8 word list" where
  "bytes_le32 w = map (\<lambda>i. ucast (drop_bit (8 * i) w)) [0..<4]"

fun chunks :: "nat \<Rightarrow> 'a list \<Rightarrow> 'a list list" where
  "chunks k [] = []"
| "chunks k (x # xs) =
     (if k = 0 then [x # xs] else take k (x # xs) # chunks k (drop k (x # xs)))"

type_synonym md5_state = "32 word \<times> 32 word \<times> 32 word \<times> 32 word"

definition md5_round :: "32 word list \<Rightarrow> md5_state \<Rightarrow> nat \<Rightarrow> md5_state" where
  "md5_round M st i = (case st of (A, B, C, D) \<Rightarrow>
     let (F, g) =
           (if i < 16 then ((B AND C) OR (NOT B AND D), i)
            else if i < 32 then ((D AND B) OR (NOT D AND C), (5 * i + 1) mod 16)
            else if i < 48 then (B XOR C XOR D, (3 * i + 5) mod 16)
            else (C XOR (B OR NOT D), (7 * i) mod 16));
         F' = F + A + md5_K ! i + M ! g
     in (D, B + word_rotl (md5_s ! i) F', B, C))"

definition md5_block :: "md5_state \<Rightarrow> 8 word list \<Rightarrow> md5_state" where
  "md5_block st blk = (case st of (a0, b0, c0, d0) \<Rightarrow>
     case foldl (md5_round (map le32 (chunks 4 blk))) st [0..<64] of (A, B, C, D) \<Rightarrow>
       (a0 + A, b0 + B, c0 + C, d0 + D))"

definition hex_byte :: "8 word \<Rightarrow> string" where
  "hex_byte b = [''0123456789abcdef'' ! (unat b div 16), ''0123456789abcdef'' ! (unat b mod 16)]"

definition md5_hexdigest :: "8 word list \<Rightarrow> string" where
  "md5_hexdigest bs =
     (case foldl md5_block (0x67452301, 0xefcdab89, 0x98badcfe, 0x10325476)
             (chunks 64 (md5_pad bs)) of
        (a, b, c, d) \<Rightarrow> concat (map hex_byte (concat (map bytes_le32 [a, b, c, d]))))"

text \<open>\<open>s.encode()\<close>: the UTF-8 bytes, which is how a \<open>str\<close> is carried here.\<close>

definition encode :: "string \<Rightarrow> 8 word list" where
  "encode s = map (\<lambda>c. of_nat (of_char c)) s"

section \<open>\<open>json.dumps(d, default=str)\<close>\<close>

text \<open>
  The encoder escapes to ASCII (\<open>ensure_ascii\<close>), so it works on code points:
  \<open>utf8_decode\<close> reads them back from the bytes.
\<close>

fun utf8_decode :: "nat list \<Rightarrow> nat list" where
  "utf8_decode [] = []"
| "utf8_decode (a # bs) =
     (if 240 \<le> a \<and> 3 \<le> length bs then
        ((a - 240) * 262144 + (bs ! 0 - 128) * 4096 + (bs ! 1 - 128) * 64 + (bs ! 2 - 128))
          # utf8_decode (drop 3 bs)
      else if 224 \<le> a \<and> a < 240 \<and> 2 \<le> length bs then
        ((a - 224) * 4096 + (bs ! 0 - 128) * 64 + (bs ! 1 - 128)) # utf8_decode (drop 2 bs)
      else if 192 \<le> a \<and> a < 224 \<and> 1 \<le> length bs then
        ((a - 192) * 64 + (bs ! 0 - 128)) # utf8_decode (drop 1 bs)
      else a # utf8_decode bs)"

definition hex4 :: "nat \<Rightarrow> string" where
  "hex4 n = map (\<lambda>k. ''0123456789abcdef'' ! (n div 16 ^ k mod 16)) [3, 2, 1, 0]"

definition json_escape :: "nat \<Rightarrow> string" where
  "json_escape cp =
     (if cp = 0x22 then [CHR 0x5C, CHR 0x22]
      else if cp = 0x5C then [CHR 0x5C, CHR 0x5C]
      else if cp = 0x0A then [CHR 0x5C, CHR ''n'']
      else if cp = 0x0D then [CHR 0x5C, CHR ''r'']
      else if cp = 0x09 then [CHR 0x5C, CHR ''t'']
      else if cp = 0x08 then [CHR 0x5C, CHR ''b'']
      else if cp = 0x0C then [CHR 0x5C, CHR ''f'']
      else if 0x20 \<le> cp \<and> cp \<le> 0x7E then [char_of cp]
      else if cp < 0x10000 then [CHR 0x5C, CHR ''u''] @ hex4 cp
      else [CHR 0x5C, CHR ''u''] @ hex4 (0xD800 + (cp - 0x10000) div 1024 mod 1024)
         @ [CHR 0x5C, CHR ''u''] @ hex4 (0xDC00 + (cp - 0x10000) mod 1024))"

definition json_str :: "string \<Rightarrow> string" where
  "json_str s = [CHR 0x22] @ concat (map json_escape (utf8_decode (map of_char s))) @ [CHR 0x22]"

text \<open>A value the encoder does not know (\<open>pandas.NA\<close>) goes through \<open>default=str\<close>.\<close>

fun json_value :: "pyval \<Rightarrow> string" where
  "json_value PNone = ''null''"
| "json_value (PBool b) = (if b then ''true'' else ''false'')"
| "json_value (PInt i) = str_int i"
| "json_value (PFloat r) =
     (if r = ''nan'' then ''NaN'' else if r = ''inf'' then ''Infinity''
      else if r = ''-inf'' then ''-Infinity'' else r)"
| "json_value (PStr s) = json_str s"
| "json_value PNA = json_str (py_str PNA)"

definition json_dumps :: "pyval pydict \<Rightarrow> string" where
  "json_dumps d =
     ''{'' @ py_join '', '' (map (\<lambda>(k, v). json_str k @ '': '' @ json_value v) d) @ ''}''"

section \<open>Data frames\<close>

text \<open>
  A row of a frame (a pandas Series) maps the column labels to the cells. The labels
  are distinct, as \<open>read_csv\<close> makes them. \<open>series_get\<close> is \<open>row.get(k)\<close>:
  \<open>None\<close> for a label the row does not have.
\<close>

type_synonym series = "pyval pydict"

record dataframe =
  df_columns :: "string list"
  df_rows :: "pyval list list"

definition series_get :: "series \<Rightarrow> string \<Rightarrow> pyval" where
  "series_get row k = dict_get row k PNone"

definition to_dict :: "series \<Rightarrow> pyval pydict" where
  "to_dict row = foldl (\<lambda>d (k, v). dict_set d k v) [] row"

definition iterrows :: "dataframe \<Rightarrow> series list" where
  "iterrows df = map (zip (df_columns df)) (df_rows df)"

text \<open>\<open>df.empty\<close>: an axis of length 0. \<open>pd.DataFrame()\<close> has neither rows nor columns.\<close>

definition df_empty :: "dataframe \<Rightarrow> bool" where
  "df_empty df = (df_columns df = [] \<or> df_rows df = [])"

definition empty_DataFrame :: dataframe where
  "empty_DataFrame = \<lparr>df_columns = [], df_rows = []\<rparr>"

section \<open>The record normalizer: \<open>compute_hash\<close>, \<open>process_earnings_data\<close>\<close>

definition key_fields :: "string list" where
  "key_fields = [''member'', ''category'', ''summary'', ''value'', ''payer_name'', ''received_date'']"

definition hash_str :: "pyval pydict \<Rightarrow> string" where
  "hash_str row = py_join ''|'' (map (\<lambda>f. py_str (dict_get row f (PStr ''''))) key_fields)"

definition compute_hash :: "pyval pydict \<Rightarrow> string" where
  "compute_hash row = md5_hexdigest (encode (hash_str row))"

text \<open>
  The dict that \<open>process_earnings_data\<close> builds always has the same twelve keys, and
  then \<open>hash\<close>: a record, extended by the hash. \<open>record_items\<close> is the dict as
  \<open>compute_hash\<close> receives it, before \<open>hash\<close> is set.
\<close>

record fields =
  r_category :: string
  r_member :: pyval
  r_party :: pyval
  r_mnis_id :: pyval
  r_twfy_id :: pyval
  r_summary :: pyval
  r_value :: pyval
  r_payer_name :: pyval
  r_received_date :: pyval
  r_registered :: pyval
  r_published :: pyval
  r_raw_json :: string

record nrecord = fields +
  r_hash :: string

definition record_items :: "fields \<Rightarrow> pyval pydict" where
  "record_items r =
     [(''category'', PStr (r_category r)), (''member'', r_member r), (''party'', r_party r),
      (''mnis_id'', r_mnis_id r), (''twfy_id'', r_twfy_id r),
      (''summary'', r_summary r), (''value'', r_value r),
      (''payer_name'', r_payer_name r),
      (''received_date'', r_received_date r), (''registered'', r_registered r),
      (''published'', r_published r), (''raw_json'', PStr (r_raw_json r))]"

text \<open>The body of the loop of \<open>process_earnings_data\<close>, for one row.\<close>

definition process_row :: "string \<Rightarrow> series \<Rightarrow> error + nrecord" where
  "process_row category row =
     (case py_or (series_get row ''payer_name'') (series_get row ''donor_name'') of
        Inl e \<Rightarrow> Inl e
      | Inr payer \<Rightarrow>
          let record = \<lparr>r_category = category, r_member = series_get row ''member'',
                r_party = series_get row ''party'',
                r_mnis_id = series_get row ''mnis_id'', r_twfy_id = series_get row ''twfy_id'',
                r_summary = series_get row ''summary'', r_value = series_get row ''value'',
                r_payer_name = payer,
                r_received_date = series_get row ''received_date'',
                r_registered = series_get row ''registered'',
                r_published = series_get row ''published'',
                r_raw_json = json_dumps (to_dict row)\<rparr>
          in Inr (fields.extend record (nrecord.fields (compute_hash (record_items record)))))"

fun process_rows :: "string \<Rightarrow> series list \<Rightarrow> error + nrecord list" where
  "process_rows category [] = Inr []"
| "process_rows category (row # rest) =
     (case process_row category row of
        Inl e \<Rightarrow> Inl e
      | Inr record \<Rightarrow>
          (case process_rows category rest of
             Inl e \<Rightarrow> Inl e
           | Inr records \<Rightarrow> Inr (record # records)))"

definition process_earnings_data :: "dataframe \<Rightarrow> string \<Rightarrow> error + nrecord list" where
  "process_earnings_data df category = process_rows category (iterrows df)"

section \<open>The store: the tables of \<open>init_database\<close>\<close>

text \<open>
  A table is the list of its rows in insertion order; a stored row holds the values
  that the INSERT statement binds. The surrogate \<open>id\<close> columns, which SQLite
  assigns and the program never reads, are not represented, and neither is the
  conversion of a value to its column's affinity.
\<close>

record interest =
  i_hash :: string
  i_category :: string
  i_member :: pyval
  i_party :: pyval
  i_mnis_id :: pyval
  i_twfy_id :: pyval
  i_summary :: pyval
  i_value :: pyval
  i_payer_name :: pyval
  i_received_date :: pyval
  i_registered :: pyval
  i_published :: pyval
  i_raw_json :: string
  i_first_seen :: string
  i_last_seen :: string

record change =
  c_interest_hash :: string
  c_change_type :: string
  c_detected_at :: string
  c_old_value :: pyval
  c_new_value :: pyval
  c_member :: pyval
  c_category :: string

record db =
  interests :: "interest list"
  changes :: "change list"

text \<open>
  \<open>init_database\<close> creates the two tables when they are not there
  (\<open>CREATE TABLE IF NOT EXISTS\<close>): \<open>None\<close> is the file that does not exist yet.
\<close>

definition init_database :: "db option \<Rightarrow> db" where
  "init_database file = (case file of None \<Rightarrow> \<lparr>interests = [], changes = []\<rparr> | Some conn \<Rightarrow> conn)"

text \<open>
  Binding a statement's parameters: \<open>sqlite3\<close> takes None, int (in 64 bits), float
  and str, and raises on anything else and on an int out of range.
\<close>

fun bind_error :: "pyval \<Rightarrow> error option" where
  "bind_error PNA = Some BindingError"
| "bind_error (PInt i) = (if - (2 ^ 63) \<le> i \<and> i < 2 ^ 63 then None else Some OverflowError)"
| "bind_error v = None"

fun bind_errors :: "pyval list \<Rightarrow> error option" where
  "bind_errors [] = None"
| "bind_errors (v # vs) = (case bind_error v of Some e \<Rightarrow> Some e | None \<Rightarrow> bind_errors vs)"

text \<open>\<open>SELECT hash FROM interests WHERE hash = ?\<close> and \<open>cursor.fetchone()\<close>.\<close>

definition select_hash :: "db \<Rightarrow> string \<Rightarrow> string list" where
  "select_hash conn h = filter (\<lambda>x. x = h) (map i_hash (interests conn))"

definition fetchone :: "'a list \<Rightarrow> 'a option" where
  "fetchone result = (case result of [] \<Rightarrow> None | x # _ \<Rightarrow> Some x)"

text \<open>The row that \<open>INSERT INTO interests ...\<close> writes for a record.\<close>

definition interest_values :: "string \<Rightarrow> nrecord \<Rightarrow> interest" where
  "interest_values now record =
     \<lparr>i_hash = r_hash record, i_category = r_category record,
      i_member = r_member record, i_party = r_party record,
      i_mnis_id = r_mnis_id record, i_twfy_id = r_twfy_id record,
      i_summary = r_summary record, i_value = r_value record,
      i_payer_name = r_payer_name record,
      i_received_date = r_received_date record,
      i_registered = r_registered record, i_published = r_published record,
      i_raw_json = r_raw_json record,
      i_first_seen = now, i_last_seen = now\<rparr>"

text \<open>
  The row that \<open>INSERT INTO changes ... VALUES (?, 'new', ?, ?, ?, ?)\<close> writes;
  \<open>old_value\<close> stays NULL.
\<close>

definition change_values :: "string \<Rightarrow> nrecord \<Rightarrow> change" where
  "change_values now record =
     \<lparr>c_interest_hash = r_hash record, c_change_type = ''new'',
      c_detected_at = now, c_old_value = PNone,
      c_new_value = r_summary record, c_member = r_member record,
      c_category = r_category record\<rparr>"

text \<open>The column \<open>hash\<close> of \<open>interests\<close> is UNIQUE.\<close>

definition insert_interest :: "string \<Rightarrow> nrecord \<Rightarrow> db \<Rightarrow> error + db" where
  "insert_interest now record conn =
     (case bind_errors [PStr (r_hash record), PStr (r_category record), r_member record,
              r_party record, r_mnis_id record, r_twfy_id record, r_summary record,
              r_value record, r_payer_name record, r_received_date record,
              r_registered record, r_published record, PStr (r_raw_json record),
              PStr now, PStr now] of
        Some e \<Rightarrow> Inl e
      | None \<Rightarrow>
          if r_hash record \<in> set (map i_hash (interests conn)) then Inl IntegrityError
          else Inr (conn\<lparr>interests := interests conn @ [interest_values now record]\<rparr>))"

definition insert_change :: "string \<Rightarrow> nrecord \<Rightarrow> db \<Rightarrow> error + db" where
  "insert_change now record conn =
     (case bind_errors [PStr (r_hash record), PStr now, r_summary record, r_member record,
              PStr (r_category record)] of
        Some e \<Rightarrow> Inl e
      | None \<Rightarrow> Inr (conn\<lparr>changes := changes conn @ [change_values now record]\<rparr>))"

text \<open>\<open>UPDATE interests SET last_seen = ? WHERE hash = ?\<close>.\<close>

definition update_last_seen :: "string \<Rightarrow> string \<Rightarrow> db \<Rightarrow> db" where
  "update_last_seen now h conn =
     conn\<lparr>interests := map (\<lambda>i. if i_hash i = h then i\<lparr>i_last_seen := now\<rparr> else i)
                             (interests conn)\<rparr>"

section \<open>The sync engine: \<open>sync_to_database\<close>\<close>

record stats =
  stats_new :: nat
  stats_total :: nat

text \<open>
  The inner loop, over the records of one category. An exception leaves the function
  before \<open>conn.commit()\<close>: the result \<open>Inl e\<close> returns no counts and no store,
  and what the connection had written is not committed.
\<close>

fun sync_records :: "string \<Rightarrow> nrecord list \<Rightarrow> stats \<times> db \<Rightarrow> error + stats \<times> db" where
  "sync_records now [] (stats, conn) = Inr (stats, conn)"
| "sync_records now (record # rest) (stats, conn) =
     (let stats1 = stats\<lparr>stats_total := stats_total stats + 1\<rparr> in
      if fetchone (select_hash conn (r_hash record)) = None then
        (case insert_interest now record conn of
           Inl e \<Rightarrow> Inl e
         | Inr conn1 \<Rightarrow>
             (case insert_change now record conn1 of
                Inl e \<Rightarrow> Inl e
              | Inr conn2 \<Rightarrow>
                  sync_records now rest (stats1\<lparr>stats_new := stats_new stats1 + 1\<rparr>, conn2)))
      else sync_records now rest (stats1, update_last_seen now (r_hash record) conn))"

text \<open>The outer loop, over \<open>data.items()\<close>.\<close>

fun sync_categories ::
  "string \<Rightarrow> dataframe pydict \<Rightarrow> stats \<times> db \<Rightarrow> error + stats \<times> db" where
  "sync_categories now [] sc = Inr sc"
| "sync_categories now ((category, df) # rest) sc =
     (case process_earnings_data df category of
        Inl e \<Rightarrow> Inl e
      | Inr records \<Rightarrow>
          (case sync_records now records sc of
             Inl e \<Rightarrow> Inl e
           | Inr sc' \<Rightarrow> sync_categories now rest sc'))"

text \<open>\<open>now\<close> is \<open>datetime.now().isoformat()\<close>, read once at the start of the call.\<close>

definition sync_to_database :: "string \<Rightarrow> dataframe pydict \<Rightarrow> db \<Rightarrow> error + stats \<times> db" where
  "sync_to_database now data conn =
     sync_categories now data (\<lparr>stats_new = 0, stats_total = 0\<rparr>, conn)"

section \<open>Fetching: \<open>fetch_csv\<close>, \<open>fetch_all_data\<close>\<close>

definition MYSOCIETY_BASE :: string where
  "MYSOCIETY_BASE = ''https://pages.mysociety.org/parl_register_interests/data/commons_rmfi/latest''"

definition CATEGORIES :: "string pydict" where
  "CATEGORIES =
     [(''ad_hoc_payments'', ''category_1.1.csv''),
      (''ongoing_employment'', ''category_1.2.csv''),
      (''donations'', ''category_2.csv''),
      (''gifts_uk'', ''category_3.csv''),
      (''visits'', ''category_4.csv''),
      (''gifts_foreign'', ''category_5.csv''),
      (''property'', ''category_6.csv''),
      (''shareholdings'', ''category_7.csv''),
      (''miscellaneous'', ''category_8.csv''),
      (''overall'', ''overall.csv'')]"

text \<open>
  \<open>read_csv\<close> is \<open>pd.read_csv\<close> on the remote source as it is at the time of the
  run: a frame, or the exception it raises. \<open>CATEGORIES[category_key]\<close> is outside
  the \<open>try\<close>.
\<close>

definition fetch_csv :: "(string \<Rightarrow> error + dataframe) \<Rightarrow> string \<Rightarrow> error + dataframe" where
  "fetch_csv read_csv category_key =
     (case map_of CATEGORIES category_key of
        None \<Rightarrow> Inl KeyError
      | Some file \<Rightarrow>
          (case read_csv (MYSOCIETY_BASE @ ''/'' @ file) of
             Inl e \<Rightarrow> Inr empty_DataFrame
           | Inr df \<Rightarrow> Inr df))"

fun fetch_keys ::
  "(string \<Rightarrow> error + dataframe) \<Rightarrow> string list \<Rightarrow> dataframe pydict \<Rightarrow> error + dataframe pydict" where
  "fetch_keys read_csv [] data = Inr data"
| "fetch_keys read_csv (key # keys) data =
     (case fetch_csv read_csv key of
        Inl e \<Rightarrow> Inl e
      | Inr df \<Rightarrow> fetch_keys read_csv keys (if \<not> df_empty df then dict_set data key df else data))"

definition fetch_all_data :: "(string \<Rightarrow> error + dataframe) \<Rightarrow> error + dataframe pydict" where
  "fetch_all_data read_csv = fetch_keys read_csv (map fst CATEGORIES) []"

section \<open>Runs\<close>

text \<open>
  A history of sync runs on one store, each with its timestamp and its data. A run
  that raises has committed nothing: the next run finds the store as it was.
\<close>

fun sync_history :: "(string \<times> dataframe pydict) list \<Rightarrow> db \<Rightarrow> db" where
  "sync_history [] conn = conn"
| "sync_history ((now, data) # runs) conn =
     sync_history runs
       (case sync_to_database now data conn of Inl e \<Rightarrow> conn | Inr (stats, conn') \<Rightarrow> conn')"

section \<open>Notions of the statements\<close>

text \<open>
  The hashes in the store; the records of a whole data set, in the order of the two
  loops; the records that a run inserts (those whose hash is neither in the store nor
  on an earlier row of the run); the refresh of \<open>last_seen\<close> on the stored rows whose
  hash is in a set; the records whose values \<open>sqlite3\<close> can bind; and the counts and
  the store that a run leaves.
\<close>

definition stored_hashes :: "db \<Rightarrow> string list" where
  "stored_hashes conn = map i_hash (interests conn)"

fun all_records :: "dataframe pydict \<Rightarrow> error + nrecord list" where
  "all_records [] = Inr []"
| "all_records ((category, df) # rest) =
     (case process_earnings_data df category of
        Inl e \<Rightarrow> Inl e
      | Inr records \<Rightarrow>
          (case all_records rest of Inl e \<Rightarrow> Inl e | Inr records' \<Rightarrow> Inr (records @ records')))"

fun fresh_records :: "string set \<Rightarrow> nrecord list \<Rightarrow> nrecord list" where
  "fresh_records H [] = []"
| "fresh_records H (r # rs) =
     (if r_hash r \<in> H then fresh_records H rs else r # fresh_records (insert (r_hash r) H) rs)"

definition touch :: "string \<Rightarrow> string set \<Rightarrow> interest \<Rightarrow> interest" where
  "touch now S i = (if i_hash i \<in> S then i\<lparr>i_last_seen := now\<rparr> else i)"

definition bindable :: "nrecord \<Rightarrow> bool" where
  "bindable r =
     (bind_errors [r_member r, r_party r, r_mnis_id r, r_twfy_id r, r_summary r, r_value r,
        r_payer_name r, r_received_date r, r_registered r, r_published r] = None)"

definition sync_result :: "string \<Rightarrow> nrecord list \<Rightarrow> stats \<times> db \<Rightarrow> stats \<times> db" where
  "sync_result now recs sc = (case sc of (s, conn) \<Rightarrow>
     (s\<lparr>stats_new := stats_new s + length (fresh_records (set (stored_hashes conn)) recs),
        stats_total := stats_total s + length recs\<rparr>,
      conn\<lparr>interests := map (touch now (set (map r_hash recs))) (interests conn)
                     @ map (interest_values now) (fresh_records (set (stored_hashes conn)) recs),
        changes := changes conn
                     @ map (change_values now) (fresh_records (set (stored_hashes conn)) recs)\<rparr>))"

text \<open>
  The change log and the table of interests tell the same story: row by row the same
  hashes, and every change of type \<open>new\<close>.
\<close>

definition audit_log_matches :: "db \<Rightarrow> bool" where
  "audit_log_matches conn =
     (map c_interest_hash (changes conn) = stored_hashes conn \<and>
      list_all (\<lambda>c. c_change_type c = ''new'') (changes conn))"

text \<open>
  The row of the worked scenario (member A, a gift of 100 from X, received on
  2024-01-01), as the one row of the category \<open>donations\<close>.
\<close>

definition scenario_row :: series where
  "scenario_row =
     [(''member'', PStr ''A''), (''summary'', PStr ''gift''), (''value'', PInt 100),
      (''payer_name'', PStr ''X''), (''received_date'', PStr ''2024-01-01'')]"

definition scenario_data :: "dataframe pydict" where
  "scenario_data =
     [(''donations'', \<lparr>df_columns = map fst scenario_row, df_rows = [map snd scenario_row]\<rparr>)]"

text \<open>The same row twice in one frame: the second one finds the hash of the first.\<close>

definition repeated_data :: "dataframe pydict" where
  "repeated_data =
     [(''donations'',
       \<lparr>df_columns = map fst scenario_row,
        df_rows = [map snd scenario_row, map snd scenario_row]\<rparr>)]"

text \<open>A row of a frame that has no columns \<open>value\<close>, \<open>payer_name\<close> and \<open>donor_name\<close>.\<close>

definition missing_row :: series where
  "missing_row =
     [(''member'', PStr ''A''), (''summary'', PStr ''gift''),
      (''received_date'', PStr ''2024-01-01'')]"

text \<open>
  A frame of the nullable dtypes, in which the first row has no payer: the cell is
  \<open>pandas.NA\<close>.
\<close>

definition malformed_data :: "dataframe pydict" where
  "malformed_data =
     [(''donations'',
       \<lparr>df_columns = [''member'', ''payer_name''],
        df_rows = [[PStr ''A'', PNA], [PStr ''B'', PStr ''X'']]\<rparr>)]"

text \<open>
  A frame whose one row normalizes and has the member's id \<open>2 ^ 63\<close>, one more than
  the largest integer that \<open>sqlite3\<close> binds (a column that \<open>read_csv\<close> reads as
  unsigned 64-bit numbers has such cells).
\<close>

definition overflow_data :: "dataframe pydict" where
  "overflow_data =
     [(''donations'',
       \<lparr>df_columns = [''member'', ''mnis_id'', ''summary'', ''payer_name''],
        df_rows = [[PStr ''A'', PInt 9223372036854775808, PStr ''gift'', PStr ''X'']]\<rparr>)]"

text \<open>A row whose \<open>payer_name\<close> is there and is the empty string.\<close>

definition fallback_row :: series where
  "fallback_row = [(''member'', PStr ''A''), (''payer_name'', PStr ''''), (''donor_name'', PStr ''D'')]"

text \<open>
  A source that serves the file of \<open>donations\<close> and answers 404 for every other
  file.
\<close>

definition only_donations :: "string \<Rightarrow> error + dataframe" where
  "only_donations url =
     (if url = MYSOCIETY_BASE @ ''/category_2.csv''
      then Inr \<lparr>df_columns = map fst scenario_row, df_rows = [map snd scenario_row]\<rparr>
      else Inl (OtherException ''HTTP Error 404: Not Found''))"

section \<open>The loops\<close>

lemma fetchone_None: "(fetchone xs = None) = (xs = [])"
  by (cases xs) (simp_all add: fetchone_def)

lemma fetchone_select_hash:
  "(fetchone (select_hash conn h) = None) = (h \<notin> set (stored_hashes conn))"
  by (auto simp: fetchone_None select_hash_def stored_hashes_def filter_empty_conv)

lemma bind_errors_None: "(bind_errors vs = None) = (\<forall>v\<in>set vs. bind_error v = None)"
  by (induction vs) (auto split: option.splits)

lemma insert_interest_ok:
  "bindable r \<Longrightarrow> r_hash r \<notin> set (stored_hashes conn) \<Longrightarrow>
   insert_interest now r conn = Inr (conn\<lparr>interests := interests conn @ [interest_values now r]\<rparr>)"
  by (simp add: insert_interest_def bindable_def stored_hashes_def split: option.splits)

lemma insert_interest_Inr:
  "insert_interest now r conn = Inr conn1 \<Longrightarrow>
   bindable r \<and> r_hash r \<notin> set (stored_hashes conn) \<and>
   conn1 = conn\<lparr>interests := interests conn @ [interest_values now r]\<rparr>"
  by (auto simp: insert_interest_def bindable_def stored_hashes_def split: option.splits if_splits)

lemma insert_change_ok:
  "bindable r \<Longrightarrow>
   insert_change now r conn = Inr (conn\<lparr>changes := changes conn @ [change_values now r]\<rparr>)"
  by (simp add: insert_change_def bindable_def split: option.splits)

lemma insert_change_Inr:
  "insert_change now r conn = Inr conn2 \<Longrightarrow>
   conn2 = conn\<lparr>changes := changes conn @ [change_values now r]\<rparr>"
  by (auto simp: insert_change_def split: option.splits)

lemma touch_insert_absent:
  "h \<notin> set (stored_hashes conn) \<Longrightarrow>
   map (touch now (insert h S)) (interests conn) = map (touch now S) (interests conn)"
  by (auto simp: touch_def stored_hashes_def)

lemma touch_interest_values: "touch now S (interest_values now r) = interest_values now r"
  by (simp add: touch_def interest_values_def)

lemma touch_touch:
  "touch now S (if i_hash i = h then i\<lparr>i_last_seen := now\<rparr> else i) = touch now (insert h S) i"
  by (simp add: touch_def)

lemma touch_empty: "map (touch now {}) xs = xs"
  by (induction xs) (simp_all add: touch_def)

lemma sync_records_step_absent:
  "r_hash r \<notin> set (stored_hashes conn) \<Longrightarrow> bindable r \<Longrightarrow>
   sync_records now (r # rest) (s, conn) =
   sync_records now rest
     (s\<lparr>stats_total := stats_total s + 1, stats_new := stats_new s + 1\<rparr>,
      conn\<lparr>interests := interests conn @ [interest_values now r],
        changes := changes conn @ [change_values now r]\<rparr>)"
  by (simp add: fetchone_select_hash insert_interest_ok insert_change_ok Let_def)

lemma sync_records_step_unbindable:
  "r_hash r \<notin> set (stored_hashes conn) \<Longrightarrow> \<not> bindable r \<Longrightarrow>
   \<exists>e. sync_records now (r # rest) (s, conn) = Inl e"
  by (auto simp: fetchone_select_hash Let_def split: sum.splits dest: insert_interest_Inr)

lemma sync_records_step_present:
  "r_hash r \<in> set (stored_hashes conn) \<Longrightarrow>
   sync_records now (r # rest) (s, conn) =
   sync_records now rest
     (s\<lparr>stats_total := stats_total s + 1\<rparr>, update_last_seen now (r_hash r) conn)"
  by (simp add: fetchone_select_hash Let_def)

lemma stored_hashes_update [simp]:
  "stored_hashes (update_last_seen now h conn) = stored_hashes conn"
  by (simp add: stored_hashes_def update_last_seen_def comp_def if_distrib[of i_hash] cong: if_cong)

lemma stored_hashes_insert [simp]:
  "stored_hashes (conn\<lparr>interests := interests conn @ [interest_values now r], changes := cs\<rparr>)
   = stored_hashes conn @ [r_hash r]"
  by (simp add: stored_hashes_def interest_values_def)

lemma update_last_seen_fields [simp]:
  "interests (update_last_seen now h conn) =
     map (\<lambda>i. if i_hash i = h then i\<lparr>i_last_seen := now\<rparr> else i) (interests conn)"
  "changes (update_last_seen now h conn) = changes conn"
  "update_last_seen now h conn\<lparr>interests := X, changes := Y\<rparr> = conn\<lparr>interests := X, changes := Y\<rparr>"
  by (simp_all add: update_last_seen_def)

lemma sync_records_ok:
  "\<forall>r\<in>set (fresh_records (set (stored_hashes conn)) recs). bindable r \<Longrightarrow>
   sync_records now recs (s, conn) = Inr (sync_result now recs (s, conn))"
proof (induction recs arbitrary: s conn)
  case Nil
  then show ?case by (simp add: sync_result_def touch_empty)
next
  case (Cons r rest)
  show ?case
  proof (cases "r_hash r \<in> set (stored_hashes conn)")
    case True
    from Cons.prems True
    have "\<forall>r\<in>set (fresh_records (set (stored_hashes (update_last_seen now (r_hash r) conn))) rest). bindable r"
      by simp
    from Cons.IH[OF this] True show ?thesis
      by (simp add: sync_records_step_present sync_result_def touch_touch comp_def
            del: sync_records.simps)
  next
    case False
    let ?conn1 = "conn\<lparr>interests := interests conn @ [interest_values now r],
        changes := changes conn @ [change_values now r]\<rparr>"
    from Cons.prems False have b: "bindable r"
      and "\<forall>r\<in>set (fresh_records (set (stored_hashes ?conn1)) rest). bindable r"
      by simp_all
    from Cons.IH[OF this(2)] False b show ?thesis
      by (simp add: sync_records_step_absent sync_result_def touch_interest_values
          touch_insert_absent del: sync_records.simps)
  qed
qed

lemma sync_records_Inr:
  "sync_records now recs (s, conn) = Inr res \<Longrightarrow>
   (\<forall>r\<in>set (fresh_records (set (stored_hashes conn)) recs). bindable r)"
proof (induction recs arbitrary: s conn)
  case Nil
  then show ?case by simp
next
  case (Cons r rest)
  show ?case
  proof (cases "r_hash r \<in> set (stored_hashes conn)")
    case True
    from Cons.prems True Cons.IH[of _ "update_last_seen now (r_hash r) conn"] show ?thesis
      by (simp add: sync_records_step_present del: sync_records.simps)
  next
    case False
    let ?conn1 = "conn\<lparr>interests := interests conn @ [interest_values now r],
        changes := changes conn @ [change_values now r]\<rparr>"
    have b: "bindable r"
      using sync_records_step_unbindable[OF False, of now rest s] Cons.prems by auto
    from Cons.prems False b Cons.IH[of _ ?conn1] show ?thesis
      by (simp add: sync_records_step_absent del: sync_records.simps)
  qed
qed


lemma sync_records_Inr_result:
  "sync_records now recs (s, conn) = Inr res \<Longrightarrow> res = sync_result now recs (s, conn)"
  using sync_records_ok[OF sync_records_Inr, of now recs s conn res] by simp

lemma sync_records_append:
  "sync_records now (xs @ ys) sc =
     (case sync_records now xs sc of Inl e \<Rightarrow> Inl e | Inr sc' \<Rightarrow> sync_records now ys sc')"
proof (induction xs arbitrary: sc)
  case Nil
  then show ?case by (cases sc) simp
next
  case (Cons x xs)
  obtain s conn where sc: "sc = (s, conn)" by (cases sc)
  show ?case
    unfolding sc by (simp add: Let_def Cons.IH split: sum.splits)
qed

lemma sync_categories_all_records:
  "all_records data = Inr recs \<Longrightarrow> sync_categories now data sc = sync_records now recs sc"
proof (induction data arbitrary: recs sc)
  case Nil
  then show ?case by (cases sc) simp
next
  case (Cons cd data)
  obtain category df where cd: "cd = (category, df)" by (cases cd)
  from Cons.prems obtain rs rs' where
    a: "process_earnings_data df category = Inr rs" and
    b: "all_records data = Inr rs'" and c: "recs = rs @ rs'"
    by (auto simp: cd split: sum.splits)
  show ?case
    by (simp add: cd a c sync_records_append Cons.IH[OF b] split: sum.splits)
qed

lemma sync_categories_Inr:
  "sync_categories now data sc = Inr res \<Longrightarrow> \<exists>recs. all_records data = Inr recs"
proof (induction data arbitrary: sc)
  case Nil
  then show ?case by simp
next
  case (Cons cd data)
  obtain category df where cd: "cd = (category, df)" by (cases cd)
  from Cons.prems Cons.IH show ?case
    by (auto simp: cd split: sum.splits)
qed

lemma all_records_Inl:
  "all_records data = Inl e \<Longrightarrow> \<exists>e'. sync_categories now data sc = Inl e'"
proof (induction data arbitrary: sc)
  case Nil
  then show ?case by simp
next
  case (Cons cd data)
  obtain category df where cd: "cd = (category, df)" by (cases cd)
  from Cons.prems Cons.IH show ?case
    by (auto simp: cd split: sum.splits)
qed

lemma process_rows_length:
  "process_rows category rows = Inr recs \<Longrightarrow> length recs = length rows"
  by (induction rows arbitrary: recs) (auto split: sum.splits)

lemma process_earnings_data_length:
  "process_earnings_data df category = Inr recs \<Longrightarrow> length recs = length (df_rows df)"
  by (auto simp: process_earnings_data_def iterrows_def dest: process_rows_length)

lemma all_records_length:
  "all_records data = Inr recs \<Longrightarrow>
   length recs = sum_list (map (\<lambda>(category, df). length (df_rows df)) data)"
proof (induction data arbitrary: recs)
  case Nil
  then show ?case by simp
next
  case (Cons cd data)
  obtain category df where cd: "cd = (category, df)" by (cases cd)
  from Cons.prems Cons.IH show ?case
    by (auto simp: cd split: sum.splits dest: process_earnings_data_length)
qed

lemma fresh_records_hashes:
  "set (map r_hash (fresh_records H rs)) = set (map r_hash rs) - H"
  by (induction rs arbitrary: H) auto

lemma fresh_records_distinct: "distinct (map r_hash (fresh_records H rs))"
proof (induction rs arbitrary: H)
  case Nil
  then show ?case by simp
next
  case (Cons r rs)
  have "r_hash r \<notin> set (map r_hash (fresh_records (insert (r_hash r) H) rs))"
    unfolding fresh_records_hashes by simp
  with Cons show ?case by simp
qed

lemma fresh_records_subset: "set (fresh_records H rs) \<subseteq> set rs"
  by (induction rs arbitrary: H) auto

lemma fresh_records_Nil: "set (map r_hash rs) \<subseteq> H \<Longrightarrow> fresh_records H rs = []"
  by (induction rs arbitrary: H) auto

lemma i_hash_touch [simp]: "i_hash (touch now S i) = i_hash i"
  by (simp add: touch_def)

lemma sync_result_hashes:
  "stored_hashes (snd (sync_result now recs (s, conn))) =
     stored_hashes conn @ map r_hash (fresh_records (set (stored_hashes conn)) recs)"
  by (simp add: sync_result_def stored_hashes_def interest_values_def comp_def)

lemma sync_to_database_Inr:
  assumes "sync_to_database now data conn = Inr (stats, conn')"
  shows "\<exists>recs. all_records data = Inr recs \<and>
           (\<forall>r\<in>set (fresh_records (set (stored_hashes conn)) recs). bindable r) \<and>
           (stats, conn') = sync_result now recs (\<lparr>stats_new = 0, stats_total = 0\<rparr>, conn)"
proof -
  from assms sync_categories_Inr obtain recs where r: "all_records data = Inr recs"
    unfolding sync_to_database_def by blast
  from assms have
    "sync_records now recs (\<lparr>stats_new = 0, stats_total = 0\<rparr>, conn) = Inr (stats, conn')"
    by (simp add: sync_to_database_def sync_categories_all_records[OF r])
  with r sync_records_Inr sync_records_Inr_result show ?thesis by blast
qed

lemma sync_to_database_ok:
  assumes "all_records data = Inr recs"
    and "\<forall>r\<in>set (fresh_records (set (stored_hashes conn)) recs). bindable r"
  shows "sync_to_database now data conn =
           Inr (sync_result now recs (\<lparr>stats_new = 0, stats_total = 0\<rparr>, conn))"
  using assms by (simp add: sync_to_database_def sync_categories_all_records sync_records_ok)

section \<open>The normalizer\<close>

lemma process_row_fields:
  assumes "process_row category row = Inr r"
  shows "r_category r = category" "r_member r = series_get row ''member''"
    "r_party r = series_get row ''party''" "r_mnis_id r = series_get row ''mnis_id''"
    "r_twfy_id r = series_get row ''twfy_id''" "r_summary r = series_get row ''summary''"
    "r_value r = series_get row ''value''"
    "py_or (series_get row ''payer_name'') (series_get row ''donor_name'') = Inr (r_payer_name r)"
    "r_received_date r = series_get row ''received_date''"
    "r_registered r = series_get row ''registered''"
    "r_published r = series_get row ''published''"
    "r_raw_json r = json_dumps (to_dict row)"
  using assms
  by (auto simp: process_row_def Let_def fields.defs nrecord.defs split: sum.splits)

lemma process_row_hash:
  assumes "process_row category row = Inr r"
  shows "r_hash r = md5_hexdigest (encode (py_join ''|''
           [py_str (r_member r), r_category r, py_str (r_summary r), py_str (r_value r),
            py_str (r_payer_name r), py_str (r_received_date r)]))"
  using assms
  by (auto simp: process_row_def Let_def fields.defs nrecord.defs compute_hash_def hash_str_def
      key_fields_def record_items_def dict_get_def split: sum.splits)

lemma scenario_records:
  "\<exists>r. all_records scenario_data = Inr [r] \<and> bindable r"
proof -
  obtain r where r: "process_row ''donations'' scenario_row = Inr r"
    by (simp add: process_row_def py_or_def scenario_row_def series_get_def dict_get_def Let_def)
  have p: "r_payer_name r = PStr ''X''"
    using process_row_fields(8)[OF r]
    by (simp add: py_or_def scenario_row_def series_get_def dict_get_def)
  have "bindable r"
    by (simp add: bindable_def process_row_fields(2-7,9-11)[OF r] p scenario_row_def
        series_get_def dict_get_def)
  moreover have "all_records scenario_data = Inr [r]"
    by (simp add: scenario_data_def process_earnings_data_def iterrows_def zip_map_fst_snd r)
  ultimately show ?thesis by blast
qed

lemma repeated_records:
  "\<exists>r. all_records repeated_data = Inr [r, r] \<and> bindable r"
proof -
  from scenario_records obtain r where
    a: "all_records scenario_data = Inr [r]" and b: "bindable r" by blast
  from a have "process_row ''donations'' scenario_row = Inr r"
    by (auto simp: scenario_data_def process_earnings_data_def iterrows_def zip_map_fst_snd
        split: sum.splits)
  then have "all_records repeated_data = Inr [r, r]"
    by (simp add: repeated_data_def process_earnings_data_def iterrows_def zip_map_fst_snd)
  with b show ?thesis by blast
qed

section \<open>Runs and histories\<close>

lemma sync_run_hashes:
  assumes "sync_to_database now data conn = Inr (stats, conn')"
  shows "\<exists>recs. all_records data = Inr recs \<and>
           stored_hashes conn' =
             stored_hashes conn @ map r_hash (fresh_records (set (stored_hashes conn)) recs)"
proof -
  from sync_to_database_Inr[OF assms] obtain recs where
    r: "all_records data = Inr recs" and
    s: "(stats, conn') = sync_result now recs (\<lparr>stats_new = 0, stats_total = 0\<rparr>, conn)"
    by blast
  from s have "conn' = snd (sync_result now recs (\<lparr>stats_new = 0, stats_total = 0\<rparr>, conn))"
    by (metis snd_conv)
  with r show ?thesis by (auto simp: sync_result_hashes)
qed

lemma sync_run_distinct:
  assumes "sync_to_database now data conn = Inr (stats, conn')"
    and "distinct (stored_hashes conn)"
  shows "distinct (stored_hashes conn')"
proof -
  from sync_run_hashes[OF assms(1)] obtain recs where
    h: "stored_hashes conn' =
          stored_hashes conn @ map r_hash (fresh_records (set (stored_hashes conn)) recs)"
    by blast
  have "set (stored_hashes conn)
          \<inter> set (map r_hash (fresh_records (set (stored_hashes conn)) recs)) = {}"
    unfolding fresh_records_hashes by blast
  with assms(2) fresh_records_distinct[of "set (stored_hashes conn)" recs] show ?thesis
    unfolding h by simp
qed

lemma sync_history_distinct:
  "distinct (stored_hashes conn) \<Longrightarrow> distinct (stored_hashes (sync_history runs conn))"
proof (induction runs arbitrary: conn)
  case Nil
  then show ?case by simp
next
  case (Cons run runs)
  obtain now data where run: "run = (now, data)" by (cases run)
  show ?case
  proof (cases "sync_to_database now data conn")
    case (Inl e)
    with Cons show ?thesis by (simp add: run)
  next
    case (Inr res)
    obtain stats conn' where res: "res = (stats, conn')" by (cases res)
    from Inr res Cons.prems have "distinct (stored_hashes conn')"
      using sync_run_distinct by blast
    from Cons.IH[OF this] Inr res show ?thesis by (simp add: run)
  qed
qed

lemma sync_run_audit:
  assumes "sync_to_database now data conn = Inr (stats, conn')"
    and "audit_log_matches conn"
  shows "audit_log_matches conn'"
proof -
  from sync_to_database_Inr[OF assms(1)] obtain recs where
    s: "(stats, conn') = sync_result now recs (\<lparr>stats_new = 0, stats_total = 0\<rparr>, conn)"
    by blast
  from s have c: "conn' = snd (sync_result now recs (\<lparr>stats_new = 0, stats_total = 0\<rparr>, conn))"
    by (metis snd_conv)
  have t: "map (i_hash \<circ> touch now S) xs = map i_hash xs" for S xs
    by simp
  from assms(2) show ?thesis
    unfolding c
    by (auto simp: audit_log_matches_def sync_result_def stored_hashes_def comp_def
        change_values_def interest_values_def list_all_iff)
qed

lemma sync_history_audit:
  "audit_log_matches conn \<Longrightarrow> audit_log_matches (sync_history runs conn)"
proof (induction runs arbitrary: conn)
  case Nil
  then show ?case by simp
next
  case (Cons run runs)
  obtain now data where run: "run = (now, data)" by (cases run)
  show ?case
  proof (cases "sync_to_database now data conn")
    case (Inl e)
    with Cons show ?thesis by (simp add: run)
  next
    case (Inr res)
    obtain stats conn' where res: "res = (stats, conn')" by (cases res)
    from Inr res Cons.prems have "audit_log_matches conn'"
      using sync_run_audit by blast
    from Cons.IH[OF this] Inr res show ?thesis by (simp add: run)
  qed
qed

lemma init_database_fresh:
  "stored_hashes (init_database None) = []" "changes (init_database None) = []"
  "interests (init_database None) = []"
  by (simp_all add: init_database_def stored_hashes_def)

lemma filter_distinct_hash:
  "distinct (map f xs) \<Longrightarrow> x \<in> set xs \<Longrightarrow> filter (\<lambda>y. f y = f x) xs = [x]"
proof (induction xs)
  case Nil
  then show ?case by simp
next
  case (Cons a xs)
  show ?case
  proof (cases "a = x")
    case True
    with Cons.prems have "filter (\<lambda>y. f y = f x) xs = []"
      by (auto simp: filter_empty_conv intro: rev_image_eqI)
    with True show ?thesis by simp
  next
    case False
    with Cons show ?thesis by auto
  qed
qed

lemma scenario_run:
  "\<exists>r. all_records scenario_data = Inr [r] \<and>
       sync_to_database now scenario_data (init_database None) =
         Inr (\<lparr>stats_new = 1, stats_total = 1\<rparr>,
              \<lparr>interests = [interest_values now r], changes = [change_values now r]\<rparr>)"
proof -
  from scenario_records obtain r where
    a: "all_records scenario_data = Inr [r]" and b: "bindable r" by blast
  have "\<forall>x\<in>set (fresh_records (set (stored_hashes (init_database None))) [r]). bindable x"
    using b by (simp add: init_database_fresh)
  from sync_to_database_ok[OF a this, of now] a show ?thesis
    by (simp add: sync_result_def init_database_def stored_hashes_def)
qed

lemma process_rows_Inl:
  "row \<in> set rows \<Longrightarrow> process_row category row = Inl e \<Longrightarrow>
   \<exists>e'. process_rows category rows = Inl e'"
  by (induction rows) (auto split: sum.splits)

lemma all_records_Inl_member:
  "(category, df) \<in> set data \<Longrightarrow> process_earnings_data df category = Inl e \<Longrightarrow>
   \<exists>e'. all_records data = Inl e'"
  by (induction data) (auto split: sum.splits)

lemma process_row_Inl:
  "(process_row category row = Inl e) = (py_bool (series_get row ''payer_name'') = Inl e)"
  by (auto simp: process_row_def py_or_def Let_def split: sum.splits)

section \<open>Fetching\<close>

lemma dict_set_keys: "fst ` set (dict_set d k v) = insert k (fst ` set d)"
  by (auto simp: dict_set_def image_iff split: if_splits) force+

lemma fetch_csv_Inr:
  "k \<in> set (map fst CATEGORIES) \<Longrightarrow> \<exists>df. fetch_csv read_csv k = Inr df"
proof -
  assume "k \<in> set (map fst CATEGORIES)"
  then obtain fname where "map_of CATEGORIES k = Some fname"
    by (metis map_of_eq_None_iff not_Some_eq set_map)
  then show ?thesis
    by (simp add: fetch_csv_def split: sum.splits)
qed

lemma fetch_keys_Inr:
  "\<forall>k\<in>set ks. \<exists>df. fetch_csv read_csv k = Inr df \<Longrightarrow>
   \<exists>data'. fetch_keys read_csv ks data = Inr data'"
  by (induction ks arbitrary: data) auto

lemma fetch_keys_skip:
  "fetch_csv read_csv key = Inr df \<Longrightarrow> df_empty df \<Longrightarrow>
   fetch_keys read_csv (filter (\<lambda>k. k \<noteq> key) ks) data = fetch_keys read_csv ks data"
  by (induction ks arbitrary: data) (auto split: sum.splits)

lemma fetch_keys_keys:
  "fetch_keys read_csv ks data = Inr data' \<Longrightarrow> fst ` set data' \<subseteq> fst ` set data \<union> set ks"
proof (induction ks arbitrary: data)
  case Nil
  then show ?case by simp
next
  case (Cons k ks)
  from Cons.prems obtain df where
    d: "fetch_csv read_csv k = Inr df" and
    r: "fetch_keys read_csv ks (if \<not> df_empty df then dict_set data k df else data) = Inr data'"
    by (auto split: sum.splits)
  from Cons.IH[OF r] show ?case
    by (auto simp: dict_set_keys split: if_splits)
qed

lemma sync_categories_append:
  "sync_categories now (xs @ ys) sc =
     (case sync_categories now xs sc of Inl e \<Rightarrow> Inl e | Inr sc' \<Rightarrow> sync_categories now ys sc')"
proof (induction xs arbitrary: sc)
  case Nil
  then show ?case by simp
next
  case (Cons x xs)
  obtain category df where x: "x = (category, df)" by (cases x)
  show ?case
    unfolding x by (simp add: Cons.IH split: sum.splits)
qed

lemma sync_categories_no_rows:
  "sync_categories now ((category, \<lparr>df_columns = cols, df_rows = []\<rparr>) # rest) sc
     = sync_categories now rest sc"
  by (cases sc) (simp add: process_earnings_data_def iterrows_def)

lemma only_donations_fetch:
  "fetch_csv only_donations ''visits'' = Inr empty_DataFrame"
  "df_empty empty_DataFrame"
  by (simp_all add: fetch_csv_def CATEGORIES_def only_donations_def MYSOCIETY_BASE_def
      df_empty_def empty_DataFrame_def)

lemma only_donations_data: "fetch_all_data only_donations = Inr scenario_data"
  by (simp add: fetch_all_data_def CATEGORIES_def fetch_csv_def only_donations_def
      MYSOCIETY_BASE_def df_empty_def empty_DataFrame_def scenario_data_def dict_set_def
      scenario_row_def)

section \<open>The digest on known messages\<close>

text \<open>The test suite of RFC 1321: the empty message, and one of two blocks.\<close>

lemma md5_rfc1321_empty: "md5_hexdigest (encode []) = ''d41d8cd98f00b204e9800998ecf8427e''"
  by code_simp

lemma md5_rfc1321_two_blocks:
  "md5_hexdigest (encode
     ''12345678901234567890123456789012345678901234567890123456789012345678901234567890'')
   = ''57edf4a22be3c955ac49da2e2107b67a''"
  by code_simp


section \<open>Claims\<close>

subsection \<open>C1: what a run does with each row\<close>

text \<open>
  Claim C1 says that for every data set and every store the run goes through each row
  and returns the counts. On a frame whose one row normalizes and carries the integer
  \<open>2 ^ 63\<close> as \<open>mnis_id\<close>, run on the empty store, the hash is absent, the
  \<open>INSERT INTO interests\<close> raises \<open>OverflowError\<close> when it binds that value,
  and the run returns no counts and commits nothing.
\<close>

theorem unbindable_row_counterexample:
  "map_sum id length (all_records overflow_data) = Inr 1 \<and>
   sync_to_database ''2024-06-01T09:00:00'' overflow_data (init_database None) = Inl OverflowError"
  by (simp add: sync_to_database_def overflow_data_def process_earnings_data_def iterrows_def
      process_row_def py_or_def series_get_def dict_get_def Let_def fields.defs nrecord.defs
      fetchone_def select_hash_def init_database_def insert_interest_def)

text \<open>
  Claim C1, as the code has it. A run of \<open>sync_to_database\<close> whose rows all
  normalize, and whose new records \<open>sqlite3\<close> can bind (no \<open>pandas.NA\<close>, every
  integer within 64 bits), returns. It has gone through every row of every
  category once (\<open>total\<close> is the number of rows). For each row whose hash was not in
  the store when the row was reached, it has appended one interest row with
  \<open>first_seen = last_seen = now\<close> and one change row of type \<open>new\<close> with the
  record's hash, summary, member and category (\<open>interest_values\<close>,
  \<open>change_values\<close>), and counted it in \<open>new\<close>. A row whose hash was there has
  only set \<open>last_seen\<close> to \<open>now\<close> on the stored rows of that hash (\<open>touch\<close>)
  and has written no change row. \<open>now\<close> is one value for the whole run.
\<close>

theorem sync_to_database_rows:
  assumes "all_records data = Inr recs"
    and "\<forall>r\<in>set (fresh_records (set (stored_hashes conn)) recs). bindable r"
  shows "\<exists>stats conn'.
           sync_to_database now data conn = Inr (stats, conn') \<and>
           length recs = sum_list (map (\<lambda>(category, df). length (df_rows df)) data) \<and>
           stats_total stats = length recs \<and>
           stats_new stats = length (fresh_records (set (stored_hashes conn)) recs) \<and>
           interests conn' =
             map (touch now (set (map r_hash recs))) (interests conn)
             @ map (interest_values now) (fresh_records (set (stored_hashes conn)) recs) \<and>
           changes conn' =
             changes conn
             @ map (change_values now) (fresh_records (set (stored_hashes conn)) recs) \<and>
           distinct (map r_hash (fresh_records (set (stored_hashes conn)) recs)) \<and>
           set (map r_hash (fresh_records (set (stored_hashes conn)) recs)) =
             set (map r_hash recs) - set (stored_hashes conn)"
  using sync_to_database_ok[OF assms, of now] all_records_length[OF assms(1)]
    fresh_records_distinct[of "set (stored_hashes conn)" recs]
    fresh_records_hashes[of "set (stored_hashes conn)" recs]
  by (simp add: sync_result_def)

theorem sync_to_database_rows_witness:
  "\<exists>stats conn'.
     sync_to_database ''2024-06-01T09:00:00'' repeated_data (init_database None)
       = Inr (stats, conn') \<and>
     stats_total stats = 2 \<and> stats_new stats = 1 \<and>
     map i_first_seen (interests conn') = [''2024-06-01T09:00:00''] \<and>
     map i_last_seen (interests conn') = [''2024-06-01T09:00:00''] \<and>
     map c_change_type (changes conn') = [''new'']"
proof -
  from repeated_records obtain r where
    a: "all_records repeated_data = Inr [r, r]" and b: "bindable r" by blast
  have c: "\<forall>x\<in>set (fresh_records (set (stored_hashes (init_database None))) [r, r]). bindable x"
    using b by (simp add: init_database_fresh)
  from sync_to_database_rows[OF a c, of "''2024-06-01T09:00:00''"]
  show ?thesis
    by (auto simp: init_database_fresh interest_values_def change_values_def)
qed

subsection \<open>C2: a second run on the same data\<close>

text \<open>
  Claim C2. When a run has returned, a second run on the same data and on the store
  that the first one left returns too, with \<open>new = 0\<close> and the same \<open>total\<close>.
  It leaves the number of interest rows and the change log as they were; the interest
  rows are those of the first run, with \<open>last_seen\<close> set to the second timestamp on
  the rows whose hash is in the data, and nothing else changed.
\<close>

theorem sync_twice:
  assumes "sync_to_database now1 data conn = Inr (stats1, conn1)"
  shows "\<exists>stats2 conn2 recs.
           sync_to_database now2 data conn1 = Inr (stats2, conn2) \<and>
           all_records data = Inr recs \<and>
           stats_new stats2 = 0 \<and>
           stats_total stats2 = stats_total stats1 \<and>
           length (interests conn2) = length (interests conn1) \<and>
           changes conn2 = changes conn1 \<and>
           interests conn2 = map (touch now2 (set (map r_hash recs))) (interests conn1)"
proof -
  from sync_to_database_Inr[OF assms] obtain recs where
    r: "all_records data = Inr recs" and
    s: "(stats1, conn1) = sync_result now1 recs (\<lparr>stats_new = 0, stats_total = 0\<rparr>, conn)"
    by blast
  from sync_run_hashes[OF assms] r have
    h: "stored_hashes conn1 =
          stored_hashes conn @ map r_hash (fresh_records (set (stored_hashes conn)) recs)"
    by simp
  have "set (map r_hash recs) \<subseteq> set (stored_hashes conn1)"
    unfolding h using fresh_records_hashes[of "set (stored_hashes conn)" recs] by auto
  then have f: "fresh_records (set (stored_hashes conn1)) recs = []"
    by (rule fresh_records_Nil)
  then have "\<forall>r\<in>set (fresh_records (set (stored_hashes conn1)) recs). bindable r"
    by simp
  from sync_to_database_ok[OF r this, of now2]
  have "sync_to_database now2 data conn1 =
          Inr (sync_result now2 recs (\<lparr>stats_new = 0, stats_total = 0\<rparr>, conn1))" .
  moreover from s have "stats_total stats1 = length recs"
    by (simp add: sync_result_def)
  ultimately show ?thesis
    using r f by (simp add: sync_result_def)
qed

theorem sync_twice_witness:
  "\<exists>stats1 conn1 stats2 conn2.
     sync_to_database ''2024-06-01T09:00:00'' scenario_data (init_database None)
       = Inr (stats1, conn1) \<and>
     sync_to_database ''2024-06-02T09:00:00'' scenario_data conn1 = Inr (stats2, conn2) \<and>
     stats_new stats1 = 1 \<and> stats_new stats2 = 0 \<and> stats_total stats2 = 1 \<and>
     length (interests conn2) = 1 \<and> changes conn2 = changes conn1 \<and>
     map i_first_seen (interests conn2) = [''2024-06-01T09:00:00''] \<and>
     map i_last_seen (interests conn2) = [''2024-06-02T09:00:00'']"
proof -
  from scenario_run[of "''2024-06-01T09:00:00''"] obtain r where
    a: "all_records scenario_data = Inr [r]" and
    b: "sync_to_database ''2024-06-01T09:00:00'' scenario_data (init_database None) =
         Inr (\<lparr>stats_new = 1, stats_total = 1\<rparr>,
              \<lparr>interests = [interest_values ''2024-06-01T09:00:00'' r],
               changes = [change_values ''2024-06-01T09:00:00'' r]\<rparr>)"
    by blast
  from sync_twice[OF b, of "''2024-06-02T09:00:00''"] a b show ?thesis
    by (auto simp: touch_def interest_values_def)
qed

subsection \<open>C3: one stored row for a hash\<close>

text \<open>
  Claim C3. No sequence of runs, on whatever data, makes two interest rows share a
  hash: when the hashes of the store are distinct (as in the empty store that
  \<open>init_database\<close> creates, and as the UNIQUE column requires), they are distinct
  after the runs. A record whose hash is in the store adds no row.
\<close>

theorem stored_hashes_distinct:
  assumes "distinct (stored_hashes conn)"
  shows "distinct (stored_hashes (sync_history runs conn))"
  using assms by (rule sync_history_distinct)

theorem stored_hashes_distinct_witness:
  "distinct (stored_hashes (init_database None)) \<and>
   distinct (stored_hashes
     (sync_history [(''2024-06-01T09:00:00'', scenario_data),
                    (''2024-06-02T09:00:00'', scenario_data)] (init_database None)))"
  using stored_hashes_distinct[of "init_database None"
      "[(''2024-06-01T09:00:00'', scenario_data), (''2024-06-02T09:00:00'', scenario_data)]"]
  by (simp add: init_database_fresh)

subsection \<open>C4: one change of type new for each hash\<close>

text \<open>
  Claim C4. After any sequence of runs on the store that \<open>init_database\<close> created,
  the number of changes of type \<open>new\<close> is the number of distinct hashes in the
  table of interests: one change for the insertion of each record, none for a
  refresh of \<open>last_seen\<close>.
\<close>

theorem new_changes_count:
  "length (filter (\<lambda>c. c_change_type c = ''new'') (changes (sync_history runs (init_database None))))
   = card (set (stored_hashes (sync_history runs (init_database None))))"
proof -
  let ?db = "sync_history runs (init_database None)"
  have "audit_log_matches (init_database None)"
    by (simp add: audit_log_matches_def init_database_fresh)
  then have a: "audit_log_matches ?db" by (rule sync_history_audit)
  have d: "distinct (stored_hashes ?db)"
    by (rule sync_history_distinct) (simp add: init_database_fresh)
  from a have "filter (\<lambda>c. c_change_type c = ''new'') (changes ?db) = changes ?db"
    by (simp add: audit_log_matches_def list_all_iff)
  moreover from a have "length (changes ?db) = length (stored_hashes ?db)"
    by (metis audit_log_matches_def length_map)
  ultimately show ?thesis
    using distinct_card[OF d] by simp
qed

theorem new_changes_count_witness:
  "length (filter (\<lambda>c. c_change_type c = ''new'')
     (changes (sync_history [(''2024-06-01T09:00:00'', scenario_data)] (init_database None)))) = 1"
proof -
  from scenario_run[of "''2024-06-01T09:00:00''"] obtain r where
    b: "sync_to_database ''2024-06-01T09:00:00'' scenario_data (init_database None) =
         Inr (\<lparr>stats_new = 1, stats_total = 1\<rparr>,
              \<lparr>interests = [interest_values ''2024-06-01T09:00:00'' r],
               changes = [change_values ''2024-06-01T09:00:00'' r]\<rparr>)"
    by blast
  from new_changes_count[of "[(''2024-06-01T09:00:00'', scenario_data)]"] b show ?thesis
    by (simp add: stored_hashes_def)
qed

subsection \<open>C5: the hash depends on six fields only\<close>

text \<open>
  Claim C5. Normalization and hashing are functions of the row and the category, and
  the hash of a normalized record is determined by its member, category, summary,
  value, payer name and received date: two normalized records that agree on these six
  fields have the same hash, whatever their other fields and their raw rows are. In
  particular the same row under the same category always has the same hash.
\<close>

theorem identity_hash_deterministic:
  assumes "process_row category row = Inr r"
    and "process_row category' row' = Inr r'"
    and "r_member r = r_member r'" and "r_category r = r_category r'"
    and "r_summary r = r_summary r'" and "r_value r = r_value r'"
    and "r_payer_name r = r_payer_name r'" and "r_received_date r = r_received_date r'"
  shows "r_hash r = r_hash r'"
  unfolding process_row_hash[OF assms(1)] process_row_hash[OF assms(2)]
  using assms(3-8) by simp

theorem identity_hash_deterministic_witness:
  "\<exists>r r'. process_row ''donations'' scenario_row = Inr r \<and>
     process_row ''donations'' (scenario_row @ [(''party'', PStr ''Independent'')]) = Inr r' \<and>
     r_party r \<noteq> r_party r' \<and> r_raw_json r \<noteq> r_raw_json r' \<and> r_hash r = r_hash r'"
proof -
  obtain r where r: "process_row ''donations'' scenario_row = Inr r"
    by (simp add: process_row_def py_or_def scenario_row_def series_get_def dict_get_def Let_def)
  obtain r' where
    r': "process_row ''donations'' (scenario_row @ [(''party'', PStr ''Independent'')]) = Inr r'"
    by (simp add: process_row_def py_or_def scenario_row_def series_get_def dict_get_def Let_def)
  have "r_payer_name r = PStr ''X''"
    using process_row_fields(8)[OF r]
    by (simp add: py_or_def scenario_row_def series_get_def dict_get_def)
  moreover have "r_payer_name r' = PStr ''X''"
    using process_row_fields(8)[OF r']
    by (simp add: py_or_def scenario_row_def series_get_def dict_get_def)
  ultimately have p: "r_payer_name r = r_payer_name r'"
    by simp
  have "r_hash r = r_hash r'"
    by (rule identity_hash_deterministic[OF r r'])
       (simp_all add: process_row_fields(1-7,9-11)[OF r] process_row_fields(1-7,9-11)[OF r'] p
          scenario_row_def series_get_def dict_get_def)
  moreover have "r_party r \<noteq> r_party r'"
    by (simp add: process_row_fields(3)[OF r] process_row_fields(3)[OF r']
        scenario_row_def series_get_def dict_get_def)
  moreover have "r_raw_json r \<noteq> r_raw_json r'"
    unfolding process_row_fields(12)[OF r] process_row_fields(12)[OF r'] scenario_row_def
    by code_simp
  ultimately show ?thesis using r r' by blast
qed

subsection \<open>C6: a row without some of the six fields\<close>

text \<open>
  Claim C6. \<open>compute_hash\<close> reads a key that its dict does not have as the empty
  string, and a row without \<open>value\<close> and \<open>payer_name\<close> normalizes and hashes
  without an error. But the dict that \<open>process_earnings_data\<close> hands over has all
  six keys, with \<open>None\<close> for what the row does not have: the hash of such a row is
  the digest of \<open>A|donations|gift|None|None|2024-01-01\<close>, not that of
  \<open>A|donations|gift|||2024-01-01\<close>, which \<open>compute_hash\<close> gives on the row
  itself. The two digests differ.
\<close>

theorem missing_fields_hash:
  "map_sum id r_hash (process_row ''donations'' missing_row)
     = Inr (md5_hexdigest (encode ''A|donations|gift|None|None|2024-01-01'')) \<and>
   md5_hexdigest (encode ''A|donations|gift|None|None|2024-01-01'')
     = ''59e57ba4d9c5100dc9a6f2de2da2f782'' \<and>
   md5_hexdigest (encode ''A|donations|gift|||2024-01-01'')
     = ''b2fd6dc311fcfef671d04c9b55f531d7'' \<and>
   compute_hash ((''category'', PStr ''donations'') # missing_row)
     = md5_hexdigest (encode ''A|donations|gift|||2024-01-01'')"
proof -
  have a: "map_sum id r_hash (process_row ''donations'' missing_row)
     = Inr (md5_hexdigest (encode ''A|donations|gift|None|None|2024-01-01''))"
    by (simp add: process_row_def py_or_def missing_row_def series_get_def dict_get_def Let_def
        fields.defs nrecord.defs compute_hash_def hash_str_def key_fields_def record_items_def)
  have b: "md5_hexdigest (encode ''A|donations|gift|None|None|2024-01-01'')
     = ''59e57ba4d9c5100dc9a6f2de2da2f782''"
    by code_simp
  have c: "md5_hexdigest (encode ''A|donations|gift|||2024-01-01'')
     = ''b2fd6dc311fcfef671d04c9b55f531d7''"
    by code_simp
  have d: "compute_hash ((''category'', PStr ''donations'') # missing_row)
     = md5_hexdigest (encode ''A|donations|gift|||2024-01-01'')"
    by (simp add: compute_hash_def hash_str_def key_fields_def missing_row_def dict_get_def)
  from a b c d show ?thesis by blast
qed

subsection \<open>C7: a row that does not normalize\<close>

text \<open>
  Claim C7 says that a row that cannot be normalized is reported and skipped, and
  that the run goes on. Normalization raises on a row whose \<open>payer_name\<close> has no
  truth value (\<open>pandas.NA\<close>). On a frame whose first row is such a row and whose
  second row is well formed, the run raises: it skips nothing and returns no counts.
\<close>

theorem malformed_row_counterexample:
  "sync_to_database ''2024-06-01T09:00:00'' malformed_data (init_database None) = Inl TypeError"
  by (simp add: sync_to_database_def malformed_data_def process_earnings_data_def iterrows_def
      process_row_def py_or_def series_get_def dict_get_def)

text \<open>
  Claim C7, as the code has it. There is no handler in \<open>process_earnings_data\<close>
  or in \<open>sync_to_database\<close>: when a row of any category does not normalize, the
  run raises, returns no counts and commits nothing.
\<close>

theorem malformed_row_aborts:
  assumes "(category, df) \<in> set data"
    and "row \<in> set (iterrows df)"
    and "py_bool (series_get row ''payer_name'') = Inl e"
  shows "\<exists>e'. sync_to_database now data conn = Inl e'"
proof -
  from assms(3) have "process_row category row = Inl e"
    by (simp add: process_row_Inl)
  with assms(2) obtain e1 where "process_earnings_data df category = Inl e1"
    unfolding process_earnings_data_def using process_rows_Inl by blast
  with assms(1) obtain e2 where "all_records data = Inl e2"
    using all_records_Inl_member by blast
  then show ?thesis
    unfolding sync_to_database_def by (rule all_records_Inl)
qed

theorem malformed_row_aborts_witness:
  "(''donations'', snd (hd malformed_data)) \<in> set malformed_data \<and>
   [(''member'', PStr ''A''), (''payer_name'', PNA)] \<in> set (iterrows (snd (hd malformed_data))) \<and>
   py_bool (series_get [(''member'', PStr ''A''), (''payer_name'', PNA)] ''payer_name'')
     = Inl TypeError \<and>
   (\<exists>e'. sync_to_database ''2024-06-01T09:00:00'' malformed_data (init_database None) = Inl e')"
proof -
  have a: "(''donations'', snd (hd malformed_data)) \<in> set malformed_data"
    by (simp add: malformed_data_def)
  have b: "[(''member'', PStr ''A''), (''payer_name'', PNA)]
             \<in> set (iterrows (snd (hd malformed_data)))"
    by (simp add: malformed_data_def iterrows_def)
  have c: "py_bool (series_get [(''member'', PStr ''A''), (''payer_name'', PNA)] ''payer_name'')
     = Inl TypeError"
    by (simp add: series_get_def dict_get_def)
  from malformed_row_aborts[OF a b c] a b c show ?thesis by blast
qed

subsection \<open>C8: the payer name and the donor name\<close>

text \<open>
  Claim C8 says that the record takes the donor name exactly when the row has no
  \<open>payer_name\<close>. A row whose \<open>payer_name\<close> is there and is the empty string
  gets the donor name too.
\<close>

theorem payer_fallback_counterexample:
  "map_of fallback_row ''payer_name'' = Some (PStr '''') \<and>
   map_sum id r_payer_name (process_row ''donations'' fallback_row) = Inr (PStr ''D'')"
  by (simp add: fallback_row_def process_row_def py_or_def series_get_def dict_get_def Let_def
      fields.defs nrecord.defs)

text \<open>
  Claim C8, as the code has it. The payer name of the normalized record is the row's
  \<open>payer_name\<close> when that value is true, and the row's \<open>donor_name\<close>
  (\<open>None\<close> when the row has none) when it is false: when the row has no
  \<open>payer_name\<close>, and also when it has one that is \<open>None\<close>, the empty string,
  zero or \<open>False\<close>.
\<close>

theorem payer_name_fallback:
  assumes "py_bool (series_get row ''payer_name'') = Inr t"
  shows "\<exists>r. process_row category row = Inr r \<and>
           r_payer_name r =
             (if t then series_get row ''payer_name'' else series_get row ''donor_name'')"
  using assms
  by (simp add: process_row_def py_or_def Let_def fields.defs nrecord.defs)

theorem payer_name_fallback_witness:
  "py_bool (series_get fallback_row ''payer_name'') = Inr False \<and>
   (\<exists>r. process_row ''donations'' fallback_row = Inr r \<and> r_payer_name r = PStr ''D'')"
proof -
  have a: "py_bool (series_get fallback_row ''payer_name'') = Inr False"
    by (simp add: fallback_row_def series_get_def dict_get_def)
  from payer_name_fallback[OF a, of "''donations''"] a show ?thesis
    by (simp add: fallback_row_def series_get_def dict_get_def)
qed

subsection \<open>C9: a category without data\<close>

text \<open>
  Claim C9. When the fetch of a category gives no data (\<open>read_csv\<close> raises, or the
  frame is empty), \<open>fetch_all_data\<close> returns, and the category is not in the data
  it returns: the data are those of fetching the other categories only, so the
  category adds nothing to \<open>total\<close> and \<open>new\<close> and writes nothing. A frame
  without rows that is handed to \<open>sync_to_database\<close> changes nothing either.
\<close>

theorem fetch_no_data:
  assumes "fetch_csv read_csv key = Inr df" and "df_empty df"
  shows "\<exists>data. fetch_all_data read_csv = Inr data \<and>
           map_of data key = None \<and>
           fetch_keys read_csv (filter (\<lambda>k. k \<noteq> key) (map fst CATEGORIES)) [] = Inr data \<and>
           sync_to_database now (pre @ (key, \<lparr>df_columns = cols, df_rows = []\<rparr>) # post) conn
             = sync_to_database now (pre @ post) conn"
proof -
  have "\<forall>k\<in>set (map fst CATEGORIES). \<exists>df. fetch_csv read_csv k = Inr df"
    using fetch_csv_Inr by blast
  from fetch_keys_Inr[OF this] obtain data where
    d: "fetch_all_data read_csv = Inr data"
    unfolding fetch_all_data_def by blast
  have s: "fetch_keys read_csv (filter (\<lambda>k. k \<noteq> key) (map fst CATEGORIES)) [] = Inr data"
    using d fetch_keys_skip[OF assms] by (simp add: fetch_all_data_def)
  from fetch_keys_keys[OF s] have "key \<notin> fst ` set data"
    by auto
  then have m: "map_of data key = None"
    by (simp add: map_of_eq_None_iff)
  have "sync_to_database now (pre @ (key, \<lparr>df_columns = cols, df_rows = []\<rparr>) # post) conn
          = sync_to_database now (pre @ post) conn"
    by (simp add: sync_to_database_def sync_categories_append sync_categories_no_rows
        del: sync_categories.simps cong: sum.case_cong)
  with d s m show ?thesis by blast
qed

theorem fetch_no_data_witness:
  "fetch_csv only_donations ''visits'' = Inr empty_DataFrame \<and> df_empty empty_DataFrame \<and>
   (\<exists>data. fetch_all_data only_donations = Inr data \<and> map_of data ''visits'' = None \<and>
      sync_to_database ''2024-06-01T09:00:00''
          (data @ [(''visits'', \<lparr>df_columns = [], df_rows = []\<rparr>)]) (init_database None)
        = sync_to_database ''2024-06-01T09:00:00'' data (init_database None))"
  using fetch_no_data[OF only_donations_fetch, of "''2024-06-01T09:00:00''" _ "[]" "[]"
      "init_database None"] only_donations_fetch
  by auto

subsection \<open>C10: the timestamp of a change\<close>

text \<open>
  Claim C10. Every change that a run writes has \<open>detected_at = now\<close>, and when the
  run returns the store holds exactly one interest row with the hash of the change;
  its \<open>first_seen\<close> and its \<open>last_seen\<close> are \<open>now\<close> as well.
\<close>

theorem change_detected_at:
  assumes "sync_to_database now data conn = Inr (stats, conn')"
  shows "\<exists>evs. changes conn' = changes conn @ evs \<and>
           (\<forall>ev\<in>set evs.
              c_detected_at ev = now \<and>
              (\<exists>i. filter (\<lambda>i. i_hash i = c_interest_hash ev) (interests conn') = [i] \<and>
                   i_first_seen i = now \<and> i_last_seen i = now))"
proof -
  from sync_to_database_Inr[OF assms] obtain recs where
    s: "(stats, conn') = sync_result now recs (\<lparr>stats_new = 0, stats_total = 0\<rparr>, conn)"
    by blast
  let ?news = "fresh_records (set (stored_hashes conn)) recs"
  from s have c: "changes conn' = changes conn @ map (change_values now) ?news"
    and i: "interests conn' = map (touch now (set (map r_hash recs))) (interests conn)
              @ map (interest_values now) ?news"
    by (simp_all add: sync_result_def)
  have "c_detected_at ev = now \<and>
        (\<exists>i. filter (\<lambda>i. i_hash i = c_interest_hash ev) (interests conn') = [i] \<and>
             i_first_seen i = now \<and> i_last_seen i = now)"
    if "ev \<in> set (map (change_values now) ?news)" for ev
  proof -
    from that obtain r where r: "r \<in> set ?news" and ev: "ev = change_values now r"
      by auto
    from r fresh_records_hashes[of "set (stored_hashes conn)" recs]
    have "r_hash r \<notin> set (stored_hashes conn)" by auto
    then have old: "filter (\<lambda>i. i_hash i = r_hash r)
                      (map (touch now S) (interests conn)) = []" for S
      by (auto simp: filter_empty_conv stored_hashes_def intro: rev_image_eqI)
    have "filter (\<lambda>y. r_hash y = r_hash r) ?news = [r]"
      using fresh_records_distinct r by (rule filter_distinct_hash)
    then have new: "filter (\<lambda>i. i_hash i = r_hash r) (map (interest_values now) ?news)
                 = [interest_values now r]"
      by (simp add: filter_map comp_def interest_values_def)
    have ch: "c_interest_hash ev = r_hash r" "c_detected_at ev = now"
      by (simp_all add: ev change_values_def)
    show ?thesis
      unfolding i by (simp add: ch old new interest_values_def)
  qed
  with c show ?thesis by blast
qed

theorem change_detected_at_witness:
  "\<exists>stats conn' ev i.
     sync_to_database ''2024-06-01T09:00:00'' scenario_data (init_database None)
       = Inr (stats, conn') \<and>
     changes conn' = [ev] \<and> c_detected_at ev = ''2024-06-01T09:00:00'' \<and>
     filter (\<lambda>i. i_hash i = c_interest_hash ev) (interests conn') = [i] \<and>
     i_first_seen i = ''2024-06-01T09:00:00'' \<and> i_last_seen i = ''2024-06-01T09:00:00''"
proof -
  from scenario_run[of "''2024-06-01T09:00:00''"] obtain r where
    b: "sync_to_database ''2024-06-01T09:00:00'' scenario_data (init_database None) =
         Inr (\<lparr>stats_new = 1, stats_total = 1\<rparr>,
              \<lparr>interests = [interest_values ''2024-06-01T09:00:00'' r],
               changes = [change_values ''2024-06-01T09:00:00'' r]\<rparr>)"
    by blast
  from change_detected_at[OF b] b show ?thesis
    by (auto simp: init_database_fresh)
qed

end
